theory Spec2Isabelle
  imports Main
begin

section \<open>Python values used by \<open>src/app.py\<close>\<close>

text \<open>
  A Python \<open>str\<close> is a sequence of Unicode code points, and \<open>len\<close> counts code
  points. The source compares against literals with accented letters, so a string is
  modelled as a list of code points (the integers that \<open>ord\<close> returns), not as a list
  of bytes.
  \<open>str\<close> turns an ASCII literal into its code points.
\<close>

type_synonym pystr = "int list"

definition str :: "string \<Rightarrow> pystr" where
  "str s = map of_char s"

text \<open>
  A \<open>dict\<close> keeps its keys unique and in insertion order: an assignment to a key that is
  already present replaces the value in place, an assignment to a new key appends.
\<close>

type_synonym ('k, 'v) dict = "('k \<times> 'v) list"

fun setitem :: "'k \<Rightarrow> 'v \<Rightarrow> ('k, 'v) dict \<Rightarrow> ('k, 'v) dict" where
  "setitem k v [] = [(k, v)]"
| "setitem k v (p # ps) = (if fst p = k then (k, v) # ps else p # setitem k v ps)"

fun getitem :: "('k, 'v) dict \<Rightarrow> 'k \<Rightarrow> 'v option" where
  "getitem [] k = None"
| "getitem (p # ps) k = (if fst p = k then Some (snd p) else getitem ps k)"

definition keys :: "('k, 'v) dict \<Rightarrow> 'k list" where
  "keys d = map fst d"

datatype py_error = KeyError | ValueError

text \<open>
  \<open>s.strip()\<close> without arguments removes leading and trailing characters for which
  \<open>str.isspace\<close> holds. These are exactly the code points below.
\<close>

definition isspace :: "int \<Rightarrow> bool" where
  "isspace c =
     ((9 \<le> c \<and> c \<le> 13) \<or> (28 \<le> c \<and> c \<le> 32) \<or> c = 133 \<or> c = 160 \<or> c = 5760
      \<or> (8192 \<le> c \<and> c \<le> 8202) \<or> c = 8232 \<or> c = 8233 \<or> c = 8239 \<or> c = 8287
      \<or> c = 12288)"

definition strip :: "pystr \<Rightarrow> pystr" where
  "strip s = rev (dropWhile isspace (rev (dropWhile isspace s)))"

text \<open>\<open>s.split(sep)\<close> for a one-character separator: always at least one piece.\<close>

fun split :: "int \<Rightarrow> pystr \<Rightarrow> pystr list" where
  "split sep [] = [[]]"
| "split sep (c # cs) =
     (if c = sep then [] # split sep cs
      else (case split sep cs of
              [] \<Rightarrow> [[c]]
            | piece # pieces \<Rightarrow> (c # piece) # pieces))"

text \<open>\<open>s.split(sep, 1)\<close>: cut at the first separator only; one piece when there is none.\<close>

fun split1 :: "int \<Rightarrow> pystr \<Rightarrow> pystr list" where
  "split1 sep [] = [[]]"
| "split1 sep (c # cs) =
     (if c = sep then [[], cs]
      else (case split1 sep cs of
              [] \<Rightarrow> [[c]]
            | piece # pieces \<Rightarrow> (c # piece) # pieces))"

text \<open>\<open>needle in hay\<close> on strings is substring containment.\<close>

fun startswith :: "pystr \<Rightarrow> pystr \<Rightarrow> bool" where
  "startswith hay [] = True"
| "startswith [] (n # ns) = False"
| "startswith (h # hs) (n # ns) = (h = n \<and> startswith hs ns)"

fun str_in :: "pystr \<Rightarrow> pystr \<Rightarrow> bool" where
  "str_in needle [] = (needle = [])"
| "str_in needle (h # hs) = (startswith (h # hs) needle \<or> str_in needle hs)"

text \<open>Truth value of a variable that holds \<open>None\<close> or a string.\<close>

fun truthy :: "pystr option \<Rightarrow> bool" where
  "truthy None = False"
| "truthy (Some s) = (s \<noteq> [])"

section \<open>The literals of the source\<close>

definition DATOS_BASICOS :: pystr where "DATOS_BASICOS = str ''DATOS_BASICOS''"
definition IDENTIFICACION :: pystr where "IDENTIFICACION = str ''IDENTIFICACION''"
definition EQUIPO_QUIRURGICO :: pystr where "EQUIPO_QUIRURGICO = str ''EQUIPO_QUIRURGICO''"
definition DIAGNOSTICOS :: pystr where "DIAGNOSTICOS = str ''DIAGNOSTICOS''"
definition INTERVENCION :: pystr where "INTERVENCION = str ''INTERVENCION''"
definition PROCEDIMIENTOS :: pystr where "PROCEDIMIENTOS = str ''PROCEDIMIENTOS''"
definition DESCRIPCION_QUIRURGICA :: pystr where
  "DESCRIPCION_QUIRURGICA = str ''DESCRIPCION_QUIRURGICA''"
definition CONTEO_MATERIAL :: pystr where "CONTEO_MATERIAL = str ''CONTEO_MATERIAL''"
definition DATOS_PROFESIONAL :: pystr where "DATOS_PROFESIONAL = str ''DATOS_PROFESIONAL''"

text \<open>The list literal of lines 270-272, repeated at lines 317-321.\<close>

definition secciones :: "pystr list" where
  "secciones = [DATOS_BASICOS, IDENTIFICACION, EQUIPO_QUIRURGICO, DIAGNOSTICOS, INTERVENCION,
     PROCEDIMIENTOS, DESCRIPCION_QUIRURGICA, CONTEO_MATERIAL, DATOS_PROFESIONAL]"

definition Hallazgos_operatorios :: pystr where
  "Hallazgos_operatorios = str ''Hallazgos_operatorios''"

text \<open>The letter after \<open>Detalle_quir\<close> is U+00FA, the one after \<open>P\<close> is U+00E1.\<close>

definition Detalle_quirurgico :: pystr where
  "Detalle_quirurgico = str ''Detalle_quir'' @ [250] @ str ''rgico''"

definition Pagina :: pystr where
  "Pagina = str ''P'' @ [225] @ str ''gina''"

definition Impreso_el :: pystr where
  "Impreso_el = str ''Impreso el''"

definition Ingreso :: pystr where
  "Ingreso = str ''Ingreso''"

section \<open>\<open>guardar_en_txt\<close>\<close>

text \<open>
  The text written to the output file: for each element of \<open>datos\<close>, in order,
  \<open>f.write(dato + '\n\n')\<close>. The model is the sequence of characters handed to
  \<open>write\<close>; the file system is not modelled.
\<close>

fun guardar_en_txt :: "pystr list \<Rightarrow> pystr" where
  "guardar_en_txt [] = []"
| "guardar_en_txt (dato # datos) = (dato @ [10, 10]) @ guardar_en_txt datos"

text \<open>
  The aggregator in the words of the specification: the documents joined with a separator,
  as \<open>sep.join(texts)\<close> does.
\<close>

fun join :: "pystr \<Rightarrow> pystr list \<Rightarrow> pystr" where
  "join sep [] = []"
| "join sep [t] = t"
| "join sep (t # u # ts) = t @ sep @ join sep (u # ts)"

section \<open>\<open>convertir_a_json\<close>\<close>

text \<open>
  The local variables of the loop of lines 255-300. \<open>datos_json\<close> maps a section name to
  the dictionary of its fields.
\<close>

type_synonym campos = "(pystr, pystr) dict"
type_synonym datos = "(pystr, campos) dict"

record estado =
  datos_json :: datos
  seccion_actual :: "pystr option"
  subseccion_actual :: "pystr option"
  temp_dict :: campos

definition estado_inicial :: estado where
  "estado_inicial =
     \<lparr>datos_json = [], seccion_actual = None, subseccion_actual = None, temp_dict = []\<rparr>"

text \<open>
  \<open>temp_dict[subseccion_actual] += "\n" + linea\<close> reads the entry first and raises
  \<open>KeyError\<close> when it is missing.
\<close>

definition acumular :: "estado \<Rightarrow> pystr \<Rightarrow> pystr \<Rightarrow> py_error + estado" where
  "acumular st sub linea =
     (case getitem (temp_dict st) sub of
        None \<Rightarrow> Inl KeyError
      | Some v \<Rightarrow> Inr (st\<lparr>temp_dict := setitem sub (v @ [10] @ linea) (temp_dict st)\<rparr>))"

text \<open>One iteration of the loop body, lines 263-300, on the raw line \<open>cruda\<close>.\<close>

definition procesar_linea :: "estado \<Rightarrow> pystr \<Rightarrow> py_error + estado" where
  "procesar_linea st cruda =
     (let linea = strip cruda in
      if linea = [] \<or> str_in Pagina linea \<or> str_in Impreso_el linea then Inr st
      else if linea \<in> set secciones then
        Inr \<lparr>datos_json =
               (if truthy (seccion_actual st) \<and> temp_dict st \<noteq> []
                then setitem (the (seccion_actual st)) (temp_dict st) (datos_json st)
                else datos_json st),
             seccion_actual = Some linea,
             subseccion_actual = None,
             temp_dict = []\<rparr>
      else if truthy (seccion_actual st) \<and> 58 \<in> set linea then
        (case map strip (split1 58 linea) of
           [clave, valor] \<Rightarrow>
             if seccion_actual st = Some DESCRIPCION_QUIRURGICA then
               if str_in Hallazgos_operatorios clave then
                 Inr (st\<lparr>subseccion_actual := Some Hallazgos_operatorios,
                          temp_dict := setitem Hallazgos_operatorios valor (temp_dict st)\<rparr>)
               else if str_in Detalle_quirurgico clave then
                 Inr (st\<lparr>subseccion_actual := Some Detalle_quirurgico,
                          temp_dict := setitem Detalle_quirurgico valor (temp_dict st)\<rparr>)
               else if truthy (subseccion_actual st) then
                 acumular st (the (subseccion_actual st)) linea
               else Inr (st\<lparr>temp_dict := setitem clave valor (temp_dict st)\<rparr>)
             else Inr (st\<lparr>temp_dict := setitem clave valor (temp_dict st)\<rparr>)
         | _ \<Rightarrow> Inl ValueError)
      else if truthy (seccion_actual st) \<and> truthy (subseccion_actual st) \<and> linea \<noteq> [] then
        acumular st (the (subseccion_actual st)) linea
      else Inr st)"

text \<open>The \<open>for\<close> loop over the lines; an exception leaves the loop.\<close>

fun procesar_lineas :: "estado \<Rightarrow> pystr list \<Rightarrow> py_error + estado" where
  "procesar_lineas st [] = Inr st"
| "procesar_lineas st (cruda # lineas) =
     (case procesar_linea st cruda of
        Inl e \<Rightarrow> Inl e
      | Inr st' \<Rightarrow> procesar_lineas st' lineas)"

text \<open>Lines 302-304: the last section is stored after the loop.\<close>

definition guardar_ultima :: "estado \<Rightarrow> datos" where
  "guardar_ultima st =
     (if truthy (seccion_actual st) \<and> temp_dict st \<noteq> []
      then setitem (the (seccion_actual st)) (temp_dict st) (datos_json st)
      else datos_json st)"

text \<open>
  From the text read from the file (\<open>contenido\<close>) to the dictionary handed to
  \<open>json.dump\<close>, or the exception raised on the way. Reading and writing the files are
  outside the model.
\<close>

definition convertir_a_json :: "pystr \<Rightarrow> py_error + datos" where
  "convertir_a_json contenido =
     (case procesar_lineas estado_inicial (split 10 contenido) of
        Inl e \<Rightarrow> Inl e
      | Inr st \<Rightarrow> Inr (guardar_ultima st))"

section \<open>\<open>validar_datos\<close>\<close>

text \<open>
  The function only logs; the model returns the warnings logged, in order, together with
  the exception that ended the call, if any.
\<close>

datatype aviso =
  Seccion_faltante pystr
| Hallazgos_faltantes
| Hallazgos_incompletos

fun validar_secciones :: "datos \<Rightarrow> pystr list \<Rightarrow> aviso list \<Rightarrow> aviso list \<times> py_error option"
  where
  "validar_secciones dj [] avisos = (avisos, None)"
| "validar_secciones dj (seccion # resto) avisos =
     (case getitem dj seccion of
        None \<Rightarrow> validar_secciones dj resto (avisos @ [Seccion_faltante seccion])
      | Some campos \<Rightarrow>
          if seccion = DESCRIPCION_QUIRURGICA then
            (let avisos1 =
               (if getitem campos Hallazgos_operatorios = None
                then avisos @ [Hallazgos_faltantes] else avisos)
             in case getitem campos Hallazgos_operatorios of
                  None \<Rightarrow> (avisos1, Some KeyError)
                | Some v \<Rightarrow>
                    validar_secciones dj resto
                      (if length v < 50 then avisos1 @ [Hallazgos_incompletos] else avisos1))
          else validar_secciones dj resto avisos)"

definition validar_datos :: "datos \<Rightarrow> aviso list \<times> py_error option" where
  "validar_datos dj = validar_secciones dj secciones []"

section \<open>Invariants of the loop\<close>

text \<open>
  An open multi-line field belongs to the section \<open>DESCRIPCION_QUIRURGICA\<close>, is one of
  the two markers, and has an entry in \<open>temp_dict\<close>.
\<close>

definition sub_ok :: "estado \<Rightarrow> bool" where
  "sub_ok st =
     (case subseccion_actual st of
        None \<Rightarrow> True
      | Some m \<Rightarrow> seccion_actual st = Some DESCRIPCION_QUIRURGICA
          \<and> (m = Hallazgos_operatorios \<or> m = Detalle_quirurgico)
          \<and> m \<in> set (keys (temp_dict st)))"

text \<open>Stored sections and the current section are names of the list; no fields without a section.\<close>

definition sec_ok :: "estado \<Rightarrow> bool" where
  "sec_ok st =
     (set (keys (datos_json st)) \<subseteq> set secciones
      \<and> (case seccion_actual st of
            None \<Rightarrow> temp_dict st = []
          | Some s \<Rightarrow> s \<in> set secciones))"

text \<open>Field names are unique within a dictionary, and no stored section is empty.\<close>

definition campos_ok :: "estado \<Rightarrow> bool" where
  "campos_ok st =
     (distinct (keys (temp_dict st))
      \<and> (\<forall>fs \<in> snd ` set (datos_json st). fs \<noteq> [] \<and> distinct (keys fs)))"

text \<open>
  Two runs of the loop over the same lines, the first from the initial variables: as long
  as the first has seen no section it has stored nothing; afterwards both agree on the
  current section, the open field and \<open>temp_dict\<close>, and every section stored by the first
  is stored with the same fields by the second.
\<close>

definition cubre :: "estado \<Rightarrow> estado \<Rightarrow> bool" where
  "cubre a b =
     ((seccion_actual a = None \<and> datos_json a = [])
      \<or> (seccion_actual a = seccion_actual b
          \<and> subseccion_actual a = subseccion_actual b
          \<and> temp_dict a = temp_dict b
          \<and> (\<forall>s fs. getitem (datos_json a) s = Some fs
                \<longrightarrow> getitem (datos_json b) s = Some fs)))"

section \<open>Dictionaries and splitting\<close>

lemma getitem_setitem: "getitem (setitem k v d) k' = (if k' = k then Some v else getitem d k')"
  by (induction d) auto

lemma keys_setitem: "set (keys (setitem k v d)) = insert k (set (keys d))"
  by (induction d) (auto simp: keys_def)

lemma keys_setitem_present: "k \<in> set (keys d) \<Longrightarrow> keys (setitem k v d) = keys d"
  by (induction d) (auto simp: keys_def)

lemma distinct_setitem: "distinct (keys d) \<Longrightarrow> distinct (keys (setitem k v d))"
proof (induction d)
  case Nil
  show ?case by (simp add: keys_def)
next
  case (Cons p d)
  have "set (map fst (setitem k v d)) = insert k (set (map fst d))"
    using keys_setitem [of k v d] by (simp add: keys_def)
  with Cons show ?case by (auto simp: keys_def)
qed

lemma set_setitem: "set (setitem k v d) \<subseteq> insert (k, v) (set d)"
  by (induction d) auto

lemma setitem_not_Nil: "setitem k v d \<noteq> []"
  by (cases d) auto

lemma getitem_None_iff: "getitem d k = None \<longleftrightarrow> k \<notin> set (keys d)"
  by (induction d) (auto simp: keys_def)

lemma getitem_Some_mem: "getitem d k = Some v \<Longrightarrow> (k, v) \<in> set d"
  by (induction d) (auto split: if_splits)


lemma split_not_Nil: "split sep s \<noteq> []"
  by (induction s) (auto split: list.splits)

lemma split_append: "split sep (a @ sep # b) = split sep a @ split sep b"
proof (induction a)
  case Nil
  show ?case by simp
next
  case (Cons c a)
  then show ?case
    by (cases "split sep a") (auto simp: split_not_Nil)
qed

lemma split1_two: "sep \<in> set s \<Longrightarrow> \<exists>a b. split1 sep s = [a, b]"
  by (induction s) auto

lemma split1_one: "sep \<notin> set s \<Longrightarrow> split1 sep s = [s]"
  by (induction s) auto

section \<open>One iteration of the loop, by cases\<close>

lemma secciones_literal:
  "\<forall>s \<in> set secciones. s \<noteq> [] \<and> 58 \<notin> set s \<and> \<not> str_in Pagina s \<and> \<not> str_in Impreso_el s"
  by code_simp

lemma marcadores_literal:
  "Hallazgos_operatorios \<noteq> [] \<and> Detalle_quirurgico \<noteq> [] \<and> DESCRIPCION_QUIRURGICA \<in> set secciones
   \<and> Hallazgos_operatorios \<noteq> Detalle_quirurgico"
  by code_simp

lemma procesar_linea_encabezado:
  assumes "strip cruda \<in> set secciones"
  shows "procesar_linea st cruda =
    Inr \<lparr>datos_json = guardar_ultima st, seccion_actual = Some (strip cruda),
         subseccion_actual = None, temp_dict = []\<rparr>"
proof -
  from assms secciones_literal
  have "strip cruda \<noteq> []" "\<not> str_in Pagina (strip cruda)" "\<not> str_in Impreso_el (strip cruda)"
    by blast+
  with assms show ?thesis
    by (simp add: procesar_linea_def guardar_ultima_def)
qed

lemma procesar_linea_sin_seccion:
  assumes "\<not> truthy (seccion_actual st)" "strip cruda \<notin> set secciones"
  shows "procesar_linea st cruda = Inr st"
  using assms by (simp add: procesar_linea_def Let_def)

lemma procesar_linea_campo:
  assumes "strip cruda \<notin> set secciones" "\<not> str_in Pagina (strip cruda)"
    "\<not> str_in Impreso_el (strip cruda)" "truthy (seccion_actual st)"
    "split1 58 (strip cruda) = [a, b]" "58 \<in> set (strip cruda)"
  shows "procesar_linea st cruda =
    (if seccion_actual st = Some DESCRIPCION_QUIRURGICA then
       if str_in Hallazgos_operatorios (strip a) then
         Inr (st\<lparr>subseccion_actual := Some Hallazgos_operatorios,
                  temp_dict := setitem Hallazgos_operatorios (strip b) (temp_dict st)\<rparr>)
       else if str_in Detalle_quirurgico (strip a) then
         Inr (st\<lparr>subseccion_actual := Some Detalle_quirurgico,
                  temp_dict := setitem Detalle_quirurgico (strip b) (temp_dict st)\<rparr>)
       else if truthy (subseccion_actual st) then
         acumular st (the (subseccion_actual st)) (strip cruda)
       else Inr (st\<lparr>temp_dict := setitem (strip a) (strip b) (temp_dict st)\<rparr>)
     else Inr (st\<lparr>temp_dict := setitem (strip a) (strip b) (temp_dict st)\<rparr>))"
proof -
  from assms(6) have "strip cruda \<noteq> []" by auto
  with assms show ?thesis
    unfolding procesar_linea_def Let_def by simp
qed

lemma procesar_linea_texto:
  assumes "strip cruda \<notin> set secciones" "\<not> str_in Pagina (strip cruda)"
    "\<not> str_in Impreso_el (strip cruda)" "truthy (seccion_actual st)"
    "58 \<notin> set (strip cruda)" "strip cruda \<noteq> []"
  shows "procesar_linea st cruda =
    (if truthy (subseccion_actual st)
     then acumular st (the (subseccion_actual st)) (strip cruda) else Inr st)"
  using assms unfolding procesar_linea_def Let_def by simp

lemma procesar_linea_saltar:
  assumes "strip cruda = [] \<or> str_in Pagina (strip cruda) \<or> str_in Impreso_el (strip cruda)"
  shows "procesar_linea st cruda = Inr st"
  using assms unfolding procesar_linea_def Let_def by auto

lemma truthy_Some: "truthy x \<Longrightarrow> \<exists>m. x = Some m \<and> m \<noteq> []"
  by (cases x) auto

lemma procesar_linea_cases [consumes 1, case_names saltar encabezado abrir acumular asignar]:
  assumes "procesar_linea st cruda = Inr st'"
  obtains
    (saltar) "st' = st"
  | (encabezado) "strip cruda \<in> set secciones"
      "st' = \<lparr>datos_json = guardar_ultima st, seccion_actual = Some (strip cruda),
             subseccion_actual = None, temp_dict = []\<rparr>"
  | (abrir) m valor where "seccion_actual st = Some DESCRIPCION_QUIRURGICA"
      "m = Hallazgos_operatorios \<or> m = Detalle_quirurgico"
      "st' = st\<lparr>subseccion_actual := Some m, temp_dict := setitem m valor (temp_dict st)\<rparr>"
  | (acumular) m v where "truthy (seccion_actual st)" "subseccion_actual st = Some m"
      "getitem (temp_dict st) m = Some v"
      "st' = st\<lparr>temp_dict := setitem m (v @ [10] @ strip cruda) (temp_dict st)\<rparr>"
  | (asignar) clave valor where "truthy (seccion_actual st)"
      "seccion_actual st \<noteq> Some DESCRIPCION_QUIRURGICA \<or> \<not> truthy (subseccion_actual st)"
      "st' = st\<lparr>temp_dict := setitem clave valor (temp_dict st)\<rparr>"
proof (cases "strip cruda \<in> set secciones")
  case True
  with assms encabezado show ?thesis
    by (simp add: procesar_linea_encabezado)
next
  case False
  show ?thesis
  proof (cases "strip cruda = [] \<or> str_in Pagina (strip cruda) \<or> str_in Impreso_el (strip cruda)")
    case True
    with assms have "st' = st" by (simp add: procesar_linea_saltar)
    then show ?thesis by (rule saltar)
  next
    case visible: False
    show ?thesis
    proof (cases "truthy (seccion_actual st)")
      case inactivo: False
      with assms False have "st' = st" by (simp add: procesar_linea_sin_seccion)
      then show ?thesis by (rule saltar)
    next
      case activo: True
      have acum: thesis
        if "acumular st (the (subseccion_actual st)) (strip cruda) = Inr st'"
          "truthy (subseccion_actual st)"
      proof -
        from that(2) obtain m where m: "subseccion_actual st = Some m"
          using truthy_Some by blast
        with that(1) obtain v where "getitem (temp_dict st) m = Some v"
          "st' = st\<lparr>temp_dict := setitem m (v @ [10] @ strip cruda) (temp_dict st)\<rparr>"
          by (auto simp: acumular_def split: option.splits)
        with activo m show thesis by (rule acumular)
      qed
      show ?thesis
      proof (cases "58 \<in> set (strip cruda)")
        case True
        then obtain a b where ab: "split1 58 (strip cruda) = [a, b]"
          using split1_two by blast
        note eq = procesar_linea_campo [OF False _ _ activo ab True]
        from assms eq visible show ?thesis
          by (auto split: if_splits intro: abrir acum asignar [OF activo])
      next
        case sin: False
        note eq = procesar_linea_texto [OF False _ _ activo sin]
        from assms eq visible show ?thesis
          by (auto split: if_splits intro: acum saltar)
      qed
    qed
  qed
qed

section \<open>The invariants hold and no exception is raised\<close>

lemma sub_ok_paso:
  assumes "procesar_linea st cruda = Inr st'" "sub_ok st"
  shows "sub_ok st'"
  using assms(1)
proof (cases rule: procesar_linea_cases)
  case saltar
  with assms(2) show ?thesis by simp
next
  case encabezado
  then show ?thesis by (simp add: sub_ok_def)
next
  case (abrir m valor)
  then show ?thesis by (simp add: sub_ok_def keys_setitem)
next
  case (acumular m v)
  with assms(2) show ?thesis by (simp add: sub_ok_def keys_setitem)
next
  case (asignar clave valor)
  with assms(2) show ?thesis
    by (auto simp: sub_ok_def keys_setitem split: option.splits)
qed

lemma keys_guardar_ultima:
  "set (keys (guardar_ultima st)) \<subseteq>
     set (keys (datos_json st)) \<union> (case seccion_actual st of None \<Rightarrow> {} | Some s \<Rightarrow> {s})"
  by (auto simp: guardar_ultima_def keys_setitem split: option.splits)

lemma sec_ok_guardar_ultima: "sec_ok st \<Longrightarrow> set (keys (guardar_ultima st)) \<subseteq> set secciones"
  using keys_guardar_ultima [of st] by (auto simp: sec_ok_def split: option.splits)

lemma sec_ok_paso:
  assumes "procesar_linea st cruda = Inr st'" "sec_ok st"
  shows "sec_ok st'"
  using assms(1)
proof (cases rule: procesar_linea_cases)
  case saltar
  with assms(2) show ?thesis by simp
next
  case encabezado
  with sec_ok_guardar_ultima [OF assms(2)] show ?thesis by (simp add: sec_ok_def)
next
  case (abrir m valor)
  with assms(2) show ?thesis by (simp add: sec_ok_def)
next
  case (acumular m v)
  with assms(2) show ?thesis
    by (cases "seccion_actual st") (auto simp: sec_ok_def)
next
  case (asignar clave valor)
  with assms(2) show ?thesis
    by (cases "seccion_actual st") (auto simp: sec_ok_def)
qed

lemma campos_ok_guardar_ultima:
  assumes "campos_ok st" "fs \<in> snd ` set (guardar_ultima st)"
  shows "fs \<noteq> [] \<and> distinct (keys fs)"
proof (cases "truthy (seccion_actual st) \<and> temp_dict st \<noteq> []")
  case True
  with assms(2) have "fs = temp_dict st \<or> fs \<in> snd ` set (datos_json st)"
    using set_setitem [of "the (seccion_actual st)" "temp_dict st" "datos_json st"]
    by (auto simp: guardar_ultima_def)
  with assms(1) True show ?thesis by (auto simp: campos_ok_def)
next
  case False
  with assms show ?thesis by (auto simp: guardar_ultima_def campos_ok_def)
qed

lemma campos_ok_paso:
  assumes "procesar_linea st cruda = Inr st'" "campos_ok st"
  shows "campos_ok st'"
  using assms(1)
proof (cases rule: procesar_linea_cases)
  case saltar
  with assms(2) show ?thesis by simp
next
  case encabezado
  with campos_ok_guardar_ultima [OF assms(2)] show ?thesis
    by (simp add: campos_ok_def keys_def)
next
  case (abrir m valor)
  with assms(2) show ?thesis by (simp add: campos_ok_def distinct_setitem)
next
  case (acumular m v)
  with assms(2) show ?thesis by (simp add: campos_ok_def distinct_setitem)
next
  case (asignar clave valor)
  with assms(2) show ?thesis by (simp add: campos_ok_def distinct_setitem)
qed

lemma acumular_total:
  assumes "sub_ok st" "truthy (subseccion_actual st)"
  shows "\<exists>st'. acumular st (the (subseccion_actual st)) linea = Inr st'"
proof -
  from assms(2) obtain m where m: "subseccion_actual st = Some m"
    using truthy_Some by blast
  with assms(1) have "m \<in> set (keys (temp_dict st))" by (simp add: sub_ok_def)
  then obtain v where "getitem (temp_dict st) m = Some v"
    using getitem_None_iff [of "temp_dict st" m] by (cases "getitem (temp_dict st) m") auto
  with m show ?thesis by (simp add: acumular_def)
qed

lemma procesar_linea_total:
  assumes "sub_ok st"
  shows "\<exists>st'. procesar_linea st cruda = Inr st'"
proof (cases "strip cruda \<in> set secciones")
  case True
  then show ?thesis by (simp add: procesar_linea_encabezado)
next
  case False
  show ?thesis
  proof (cases "strip cruda = [] \<or> str_in Pagina (strip cruda) \<or> str_in Impreso_el (strip cruda)")
    case True
    then show ?thesis by (simp add: procesar_linea_saltar)
  next
    case visible: False
    show ?thesis
    proof (cases "truthy (seccion_actual st)")
      case inactivo: False
      with False show ?thesis by (simp add: procesar_linea_sin_seccion)
    next
      case activo: True
      show ?thesis
      proof (cases "58 \<in> set (strip cruda)")
        case True
        then obtain a b where ab: "split1 58 (strip cruda) = [a, b]"
          using split1_two by blast
        note eq = procesar_linea_campo [OF False _ _ activo ab True]
        from eq visible acumular_total [OF assms] show ?thesis by auto
      next
        case sin: False
        note eq = procesar_linea_texto [OF False _ _ activo sin]
        from eq visible acumular_total [OF assms] show ?thesis by auto
      qed
    qed
  qed
qed

lemma procesar_lineas_append:
  "procesar_lineas st (xs @ ys) =
     (case procesar_lineas st xs of Inl e \<Rightarrow> Inl e | Inr st' \<Rightarrow> procesar_lineas st' ys)"
  by (induction xs arbitrary: st) (auto split: sum.splits)

lemma procesar_lineas_total:
  "sub_ok st \<Longrightarrow> \<exists>st'. procesar_lineas st lineas = Inr st'"
proof (induction lineas arbitrary: st)
  case Nil
  show ?case by simp
next
  case (Cons cruda lineas)
  from procesar_linea_total [OF Cons.prems] obtain st1 where
    st1: "procesar_linea st cruda = Inr st1" by blast
  from st1 Cons.prems have "sub_ok st1" by (rule sub_ok_paso)
  from Cons.IH [OF this] st1 show ?case by simp
qed

lemma procesar_lineas_inv:
  assumes "procesar_lineas st lineas = Inr st'"
  shows "(sub_ok st \<longrightarrow> sub_ok st') \<and> (sec_ok st \<longrightarrow> sec_ok st') \<and> (campos_ok st \<longrightarrow> campos_ok st')"
  using assms
proof (induction lineas arbitrary: st)
  case Nil
  then show ?case by simp
next
  case (Cons cruda lineas)
  from Cons.prems obtain st1 where st1: "procesar_linea st cruda = Inr st1"
    and rest: "procesar_lineas st1 lineas = Inr st'"
    by (auto split: sum.splits)
  from Cons.IH [OF rest] sub_ok_paso [OF st1] sec_ok_paso [OF st1] campos_ok_paso [OF st1]
  show ?case by blast
qed

lemma estado_inicial_ok: "sub_ok estado_inicial" "sec_ok estado_inicial" "campos_ok estado_inicial"
  by (simp_all add: estado_inicial_def sub_ok_def sec_ok_def campos_ok_def keys_def)

section \<open>The conversion as a whole\<close>

lemma procesar_lineas_sin_encabezado:
  assumes "\<not> truthy (seccion_actual st)" "\<forall>l \<in> set lineas. strip l \<notin> set secciones"
  shows "procesar_lineas st lineas = Inr st"
  using assms by (induction lineas) (simp_all add: procesar_linea_sin_seccion)

lemma convertir_a_json_Inr:
  "\<exists>st. procesar_lineas estado_inicial (split 10 contenido) = Inr st
     \<and> convertir_a_json contenido = Inr (guardar_ultima st)
     \<and> sub_ok st \<and> sec_ok st \<and> campos_ok st"
proof -
  obtain st where st: "procesar_lineas estado_inicial (split 10 contenido) = Inr st"
    using procesar_lineas_total [OF estado_inicial_ok(1)] by blast
  from procesar_lineas_inv [OF st] estado_inicial_ok
  have "sub_ok st \<and> sec_ok st \<and> campos_ok st" by blast
  with st show ?thesis by (simp add: convertir_a_json_def)
qed

text \<open>
  C2. For every text, \<open>convertir_a_json\<close> returns a dictionary and raises nothing (the
  model is a total function, so it also terminates); the empty text gives the empty
  dictionary, and so does any text none of whose lines is, once trimmed, a section name.
\<close>

theorem convertir_a_json_total:
  "(\<exists>r. convertir_a_json contenido = Inr r)
   \<and> convertir_a_json [] = Inr []
   \<and> ((\<forall>l \<in> set (split 10 contenido). strip l \<notin> set secciones)
        \<longrightarrow> convertir_a_json contenido = Inr [])"
proof (intro conjI impI)
  show "\<exists>r. convertir_a_json contenido = Inr r"
    using convertir_a_json_Inr [of contenido] by blast
next
  have "strip [] \<notin> set secciones"
    using secciones_literal by (auto simp: strip_def)
  then show "convertir_a_json [] = Inr []"
    by (simp add: convertir_a_json_def procesar_linea_sin_seccion estado_inicial_def
        guardar_ultima_def)
next
  assume "\<forall>l \<in> set (split 10 contenido). strip l \<notin> set secciones"
  then have "procesar_lineas estado_inicial (split 10 contenido) = Inr estado_inicial"
    by (intro procesar_lineas_sin_encabezado) (simp_all add: estado_inicial_def)
  then show "convertir_a_json contenido = Inr []"
    by (simp add: convertir_a_json_def guardar_ultima_def estado_inicial_def)
qed

theorem convertir_a_json_total_witness:
  "convertir_a_json (str ''Ingreso: 1'' @ [10] @ str ''sin encabezado'') = Inr []"
proof -
  have h: "\<forall>l \<in> set (split 10 (str ''Ingreso: 1'' @ [10] @ str ''sin encabezado'')).
      strip l \<notin> set secciones"
    by code_simp
  from convertir_a_json_total [of "str ''Ingreso: 1'' @ [10] @ str ''sin encabezado''"] h
  show ?thesis by blast
qed

text \<open>
  C7. For every text, each key of the dictionary returned by \<open>convertir_a_json\<close> is one
  of the nine section names of the list \<open>secciones\<close>.
\<close>

theorem convertir_a_json_claves:
  "\<exists>r. convertir_a_json contenido = Inr r \<and> set (keys r) \<subseteq> set secciones"
  using convertir_a_json_Inr [of contenido] sec_ok_guardar_ultima by blast

theorem convertir_a_json_claves_witness:
  "\<exists>r. convertir_a_json (str ''INTERVENCION'' @ [10] @ str ''Tipo_herida: limpia'') = Inr r
     \<and> r \<noteq> [] \<and> set (keys r) \<subseteq> set secciones"
proof -
  have "convertir_a_json (str ''INTERVENCION'' @ [10] @ str ''Tipo_herida: limpia'')
      = Inr [(INTERVENCION, [(str ''Tipo_herida'', str ''limpia'')])]"
    by code_simp
  with convertir_a_json_claves [of "str ''INTERVENCION'' @ [10] @ str ''Tipo_herida: limpia''"]
  show ?thesis by auto
qed


section \<open>Validation and the text artifact\<close>

text \<open>
  C1. \<open>validar_datos\<close> does not return for every dictionary: the text below is converted
  into a dictionary whose section \<open>DESCRIPCION_QUIRURGICA\<close> has no field
  \<open>Hallazgos_operatorios\<close>, and on it \<open>validar_datos\<close> logs six missing sections and the
  missing field and then raises \<open>KeyError\<close> at line 329.
\<close>

theorem validar_datos_KeyError:
  "convertir_a_json (str ''DESCRIPCION_QUIRURGICA'' @ [10] @ str ''Complicaciones: ninguna'')
     = Inr [(DESCRIPCION_QUIRURGICA, [(str ''Complicaciones'', str ''ninguna'')])]
   \<and> validar_datos [(DESCRIPCION_QUIRURGICA, [(str ''Complicaciones'', str ''ninguna'')])]
     = ([Seccion_faltante DATOS_BASICOS, Seccion_faltante IDENTIFICACION,
         Seccion_faltante EQUIPO_QUIRURGICO, Seccion_faltante DIAGNOSTICOS,
         Seccion_faltante INTERVENCION, Seccion_faltante PROCEDIMIENTOS, Hallazgos_faltantes],
        Some KeyError)"
  by code_simp

lemma validar_secciones_presente:
  assumes "getitem dj DESCRIPCION_QUIRURGICA = Some campos"
    "getitem campos Hallazgos_operatorios = Some v"
  shows "validar_secciones dj ss avisos =
    (avisos @ concat (map (\<lambda>s.
        if getitem dj s = None then [Seccion_faltante s]
        else if s = DESCRIPCION_QUIRURGICA \<and> length v < 50 then [Hallazgos_incompletos]
        else []) ss), None)"
  using assms by (induction ss arbitrary: avisos) (auto split: option.splits)

lemma validar_secciones_ausente:
  assumes "getitem dj DESCRIPCION_QUIRURGICA = Some campos"
    "getitem campos Hallazgos_operatorios = None" "DESCRIPCION_QUIRURGICA \<in> set ss"
  shows "snd (validar_secciones dj ss avisos) = Some KeyError"
  using assms by (induction ss arbitrary: avisos) (auto split: option.splits)

text \<open>
  C8. When \<open>DESCRIPCION_QUIRURGICA\<close> is present and has the field
  \<open>Hallazgos_operatorios\<close>, \<open>validar_datos\<close> returns normally, and it logs the warning
  "Hallazgos operatorios posiblemente incompletos" exactly when the value has fewer than
  50 characters (then once); so not at 50 characters.
\<close>

theorem validar_datos_incompletos:
  assumes "getitem dj DESCRIPCION_QUIRURGICA = Some campos"
    "getitem campos Hallazgos_operatorios = Some v"
  shows "snd (validar_datos dj) = None
    \<and> (Hallazgos_incompletos \<in> set (fst (validar_datos dj)) \<longleftrightarrow> length v < 50)
    \<and> count_list (fst (validar_datos dj)) Hallazgos_incompletos = (if length v < 50 then 1 else 0)"
proof -
  let ?f = "\<lambda>s. if getitem dj s = None then [Seccion_faltante s]
        else if s = DESCRIPCION_QUIRURGICA \<and> length v < 50 then [Hallazgos_incompletos]
        else []"
  have eq: "validar_datos dj = (concat (map ?f secciones), None)"
    using validar_secciones_presente [OF assms, of secciones "[]"]
    by (simp add: validar_datos_def)
  have d: "distinct secciones" "DESCRIPCION_QUIRURGICA \<in> set secciones"
    by code_simp+
  have cnt: "count_list (concat (map ?f ss)) Hallazgos_incompletos
      = (if DESCRIPCION_QUIRURGICA \<in> set ss \<and> length v < 50 then 1 else 0)"
    if "distinct ss" for ss
    using that assms(1) by (induction ss) auto
  from cnt [OF d(1)] d(2)
  have c: "count_list (concat (map ?f secciones)) Hallazgos_incompletos
      = (if length v < 50 then 1 else 0)" by simp
  have m: "Hallazgos_incompletos \<in> set (concat (map ?f secciones)) \<longleftrightarrow> length v < 50"
    using c count_list_0_iff [of "concat (map ?f secciones)" Hallazgos_incompletos]
    by (auto split: if_splits)
  from eq c m show ?thesis by simp
qed

theorem validar_datos_incompletos_witness:
  "Hallazgos_incompletos \<notin>
     set (fst (validar_datos
       [(DESCRIPCION_QUIRURGICA, [(Hallazgos_operatorios, replicate 50 120)])]))
   \<and> Hallazgos_incompletos \<in>
     set (fst (validar_datos
       [(DESCRIPCION_QUIRURGICA, [(Hallazgos_operatorios, replicate 49 120)])]))"
proof -
  have a: "getitem [(DESCRIPCION_QUIRURGICA, [(Hallazgos_operatorios, replicate n 120)])]
      DESCRIPCION_QUIRURGICA = Some [(Hallazgos_operatorios, replicate n 120)]"
    "getitem [(Hallazgos_operatorios, replicate n 120)] Hallazgos_operatorios
      = Some (replicate n (120::int))" for n
    by simp_all
  from validar_datos_incompletos [OF a, of 50] validar_datos_incompletos [OF a, of 49]
  show ?thesis by simp
qed

lemma guardar_en_txt_join:
  "datos \<noteq> [] \<Longrightarrow> guardar_en_txt datos = join [10, 10] datos @ [10, 10]"
  by (induction "[10, 10 :: int]" datos rule: join.induct) simp_all

text \<open>
  C9, as the specification states it, fails: for the one document \<open>a\<close> the text written
  is \<open>a\n\n\<close>, while the join of one document is \<open>a\<close>.
\<close>

theorem guardar_en_txt_no_join:
  "guardar_en_txt [str ''a''] \<noteq> join [10, 10] [str ''a'']"
  by (simp add: str_def)

text \<open>
  C9, amended. The text written is every document followed by two newlines, in order:
  the empty text for no document, otherwise the documents joined by two newlines and
  two more newlines at the end.
\<close>

theorem guardar_en_txt_terminado:
  "guardar_en_txt datos = concat (map (\<lambda>dato. dato @ [10, 10]) datos)
   \<and> guardar_en_txt datos = (if datos = [] then [] else join [10, 10] datos @ [10, 10])"
proof
  show "guardar_en_txt datos = concat (map (\<lambda>dato. dato @ [10, 10]) datos)"
    by (induction datos) simp_all
  show "guardar_en_txt datos = (if datos = [] then [] else join [10, 10] datos @ [10, 10])"
    using guardar_en_txt_join [of datos] by simp
qed

section \<open>Sections without fields\<close>

lemma guardar_ultima_vacio: "temp_dict st = [] \<Longrightarrow> guardar_ultima st = datos_json st"
  by (simp add: guardar_ultima_def)

lemma claves_paso:
  assumes "procesar_linea st cruda = Inr st'"
  shows "set (keys (datos_json st')) \<union> set_option (seccion_actual st')
    \<subseteq> set (keys (datos_json st)) \<union> set_option (seccion_actual st) \<union> {strip cruda}"
  using assms
proof (cases rule: procesar_linea_cases)
  case encabezado
  with keys_guardar_ultima [of st] show ?thesis
    by (auto split: option.splits)
qed auto

lemma claves_lineas:
  assumes "procesar_lineas st lineas = Inr st'"
  shows "set (keys (datos_json st')) \<union> set_option (seccion_actual st')
    \<subseteq> set (keys (datos_json st)) \<union> set_option (seccion_actual st) \<union> strip ` set lineas"
  using assms
proof (induction lineas arbitrary: st)
  case Nil
  then show ?case by simp
next
  case (Cons cruda lineas)
  from Cons.prems obtain st1 where st1: "procesar_linea st cruda = Inr st1"
    and rest: "procesar_lineas st1 lineas = Inr st'"
    by (auto split: sum.splits)
  from Cons.IH [OF rest] claves_paso [OF st1] show ?case by auto
qed

lemma claves_convertir_a_json:
  assumes "convertir_a_json contenido = Inr r"
  shows "set (keys r) \<subseteq> strip ` set (split 10 contenido)"
proof -
  from assms obtain st where st: "procesar_lineas estado_inicial (split 10 contenido) = Inr st"
    and r: "r = guardar_ultima st"
    by (auto simp: convertir_a_json_def split: sum.splits)
  from claves_lineas [OF st]
  have "set (keys (datos_json st)) \<union> set_option (seccion_actual st)
      \<subseteq> strip ` set (split 10 contenido)"
    by (simp add: estado_inicial_def keys_def)
  with keys_guardar_ultima [of st] r show ?thesis
    by (auto split: option.splits)
qed

lemma convertir_a_json_lineas:
  "split 10 a = split 10 b \<Longrightarrow> convertir_a_json a = convertir_a_json b"
  by (simp add: convertir_a_json_def)

lemma linea_sin_campo:
  assumes "subseccion_actual st = None" "strip m \<notin> set secciones"
    "58 \<notin> set (strip m) \<or> str_in Pagina (strip m) \<or> str_in Impreso_el (strip m)"
  shows "procesar_linea st m = Inr st"
proof (cases "strip m = [] \<or> str_in Pagina (strip m) \<or> str_in Impreso_el (strip m)")
  case True
  then show ?thesis by (rule procesar_linea_saltar)
next
  case visible: False
  with assms(3) have sin: "58 \<notin> set (strip m)" by blast
  show ?thesis
  proof (cases "truthy (seccion_actual st)")
    case False
    with assms(2) show ?thesis by (simp add: procesar_linea_sin_seccion)
  next
    case True
    from procesar_linea_texto [OF assms(2) _ _ True sin] visible assms(1)
    show ?thesis by simp
  qed
qed

lemma lineas_sin_campo:
  assumes "subseccion_actual st = None"
    "\<forall>m \<in> set medio. strip m \<notin> set secciones
       \<and> (58 \<notin> set (strip m) \<or> str_in Pagina (strip m) \<or> str_in Impreso_el (strip m))"
  shows "procesar_lineas st medio = Inr st"
  using assms by (induction medio) (simp_all add: linea_sin_campo)

lemma encabezado_sin_campos:
  assumes "strip l1 \<in> set secciones" "strip l2 \<in> set secciones"
    "\<forall>m \<in> set medio. strip m \<notin> set secciones
       \<and> (58 \<notin> set (strip m) \<or> str_in Pagina (strip m) \<or> str_in Impreso_el (strip m))"
  shows "procesar_lineas st (l1 # medio @ l2 # post) = procesar_lineas st (l2 # post)"
proof -
  let ?x = "\<lparr>datos_json = guardar_ultima st, seccion_actual = Some (strip l1),
         subseccion_actual = None, temp_dict = []\<rparr>"
  have "procesar_lineas ?x medio = Inr ?x"
    using assms(3) by (intro lineas_sin_campo) simp_all
  then have "procesar_lineas ?x (medio @ l2 # post) = procesar_lineas ?x (l2 # post)"
    by (simp only: procesar_lineas_append sum.case)
  moreover have "procesar_linea ?x l2 = procesar_linea st l2"
    by (simp add: procesar_linea_encabezado [OF assms(2)] guardar_ultima_vacio)
  ultimately show ?thesis
    by (simp add: procesar_linea_encabezado [OF assms(1)])
qed

text \<open>
  C4, as the specification states it, fails: in the text below the first line
  \<open>DATOS_BASICOS\<close> is followed immediately by the line \<open>IDENTIFICACION\<close>, and the result
  still has an entry for \<open>DATOS_BASICOS\<close>, stored by the later line of that name, which has
  a field.
\<close>

theorem seccion_vacia_otra_ocurrencia:
  "convertir_a_json
     (str ''DATOS_BASICOS'' @ [10] @ str ''IDENTIFICACION'' @ [10] @ str ''Nombres: Ana''
        @ [10] @ str ''DATOS_BASICOS'' @ [10] @ str ''Ingreso: 1'')
     = Inr [(IDENTIFICACION, [(str ''Nombres'', str ''Ana'')]),
            (DATOS_BASICOS, [(Ingreso, str ''1'')])]
   \<and> getitem [(IDENTIFICACION, [(str ''Nombres'', str ''Ana'')]),
               (DATOS_BASICOS, [(Ingreso, str ''1'')])] DATOS_BASICOS
     = Some [(Ingreso, str ''1'')]"
  by code_simp

text \<open>
  C4, amended. Let a line that is a section name be followed by another such line with no
  field line in between (the lines between the two, if any, are no section names and are
  blank, carry a page marker or have no colon). Then the first of the two lines
  contributes nothing: the conversion returns what it returns for the text without that
  line and without the lines between the two, so the result has no entry for the first
  name when no other line of the text is that name; and no section of the result has an
  empty field dictionary.
\<close>

theorem seccion_vacia_descartada:
  assumes "split 10 contenido = pre @ l1 # medio @ l2 # post"
    "strip l1 \<in> set secciones" "strip l2 \<in> set secciones"
    "\<forall>m \<in> set medio. strip m \<notin> set secciones
       \<and> (58 \<notin> set (strip m) \<or> str_in Pagina (strip m) \<or> str_in Impreso_el (strip m))"
  shows "\<exists>r. convertir_a_json contenido = Inr r
    \<and> [] \<notin> snd ` set r
    \<and> (\<forall>contenido'. split 10 contenido' = pre @ l2 # post
          \<longrightarrow> convertir_a_json contenido' = Inr r)
    \<and> (strip l1 \<notin> strip ` set (pre @ l2 # post) \<longrightarrow> getitem r (strip l1) = None)"
proof -
  obtain st where st: "procesar_lineas estado_inicial (split 10 contenido) = Inr st"
    and r: "convertir_a_json contenido = Inr (guardar_ultima st)" and ok: "campos_ok st"
    using convertir_a_json_Inr [of contenido] by blast
  have "procesar_lineas estado_inicial (pre @ l1 # medio @ l2 # post)
      = procesar_lineas estado_inicial (pre @ l2 # post)"
    by (simp only: procesar_lineas_append encabezado_sin_campos [OF assms(2,3,4)])
  with st assms(1) have sin: "procesar_lineas estado_inicial (pre @ l2 # post) = Inr st"
    by simp
  have vacio: "[] \<notin> snd ` set (guardar_ultima st)"
    using campos_ok_guardar_ultima [OF ok] by blast
  have igual: "convertir_a_json contenido' = Inr (guardar_ultima st)"
    if "split 10 contenido' = pre @ l2 # post" for contenido'
    using that sin by (simp add: convertir_a_json_def)
  have ausente: "getitem (guardar_ultima st) (strip l1) = None"
    if "strip l1 \<notin> strip ` set (pre @ l2 # post)"
  proof -
    from claves_lineas [OF sin]
    have "set (keys (datos_json st)) \<union> set_option (seccion_actual st)
        \<subseteq> strip ` set (pre @ l2 # post)"
      by (simp add: estado_inicial_def keys_def)
    with keys_guardar_ultima [of st] that
    have "strip l1 \<notin> set (keys (guardar_ultima st))"
      by (auto split: option.splits)
    then show ?thesis by (simp add: getitem_None_iff)
  qed
  from r vacio igual ausente show ?thesis by blast
qed

theorem seccion_vacia_descartada_witness:
  "\<exists>r. convertir_a_json
         (str ''DATOS_BASICOS'' @ [10] @ [10] @ str ''IDENTIFICACION'' @ [10]
            @ str ''Nombres: Ana'' @ [10])
       = Inr r
     \<and> convertir_a_json (str ''IDENTIFICACION'' @ [10] @ str ''Nombres: Ana'' @ [10]) = Inr r
     \<and> getitem r DATOS_BASICOS = None
     \<and> getitem r IDENTIFICACION = Some [(str ''Nombres'', str ''Ana'')]
     \<and> [] \<notin> snd ` set r"
proof -
  have a: "split 10
      (str ''DATOS_BASICOS'' @ [10] @ [10] @ str ''IDENTIFICACION'' @ [10]
         @ str ''Nombres: Ana'' @ [10])
      = [] @ str ''DATOS_BASICOS'' # [[]] @ str ''IDENTIFICACION'' # [str ''Nombres: Ana'', []]"
    by code_simp
  have b: "strip (str ''DATOS_BASICOS'') \<in> set secciones"
    "strip (str ''IDENTIFICACION'') \<in> set secciones"
    by code_simp+
  have m: "\<forall>m \<in> set [[]]. strip m \<notin> set secciones
       \<and> (58 \<notin> set (strip m) \<or> str_in Pagina (strip m) \<or> str_in Impreso_el (strip m))"
    by code_simp
  have c: "split 10 (str ''IDENTIFICACION'' @ [10] @ str ''Nombres: Ana'' @ [10])
      = [] @ str ''IDENTIFICACION'' # [str ''Nombres: Ana'', []]"
    by code_simp
  have d: "strip (str ''DATOS_BASICOS'')
      \<notin> strip ` set ([] @ str ''IDENTIFICACION'' # [str ''Nombres: Ana'', []])"
    by code_simp
  have e: "strip (str ''DATOS_BASICOS'') = DATOS_BASICOS"
    by code_simp
  have f: "convertir_a_json (str ''IDENTIFICACION'' @ [10] @ str ''Nombres: Ana'' @ [10])
      = Inr [(IDENTIFICACION, [(str ''Nombres'', str ''Ana'')])]"
    by code_simp
  from seccion_vacia_descartada [OF a b m] c d e f show ?thesis
    by (metis getitem.simps(2) fst_conv snd_conv sum.inject(2))
qed

section \<open>Lines with a colon under an open multi-line field\<close>

lemma alcanzable_ok:
  assumes "procesar_lineas estado_inicial lineas = Inr st"
  shows "sub_ok st" "sec_ok st" "campos_ok st"
  using procesar_lineas_inv [OF assms] estado_inicial_ok by blast+

lemma procesar_lineas_snoc:
  assumes "procesar_lineas st lineas = Inr st1"
  shows "procesar_lineas st (lineas @ [cruda]) = procesar_linea st1 cruda"
  using assms by (simp add: procesar_lineas_append split: sum.splits)

lemma dos_puntos_no_encabezado: "58 \<in> set l \<Longrightarrow> l \<notin> set secciones"
  using secciones_literal by blast

text \<open>
  C5, as the specification states it, fails: the line \<open>  Nota: b\<close>, indented by two
  spaces, comes after the open field \<open>Hallazgos_operatorios\<close>; what is appended is the
  trimmed line \<open>Nota: b\<close>, not the original line.
\<close>

theorem linea_original_no_anexada:
  "convertir_a_json
     (str ''DESCRIPCION_QUIRURGICA'' @ [10] @ str ''Hallazgos_operatorios: a'' @ [10]
        @ str ''  Nota: b'')
     = Inr [(DESCRIPCION_QUIRURGICA, [(Hallazgos_operatorios, str ''a'' @ [10] @ str ''Nota: b'')])]
   \<and> convertir_a_json
     (str ''DESCRIPCION_QUIRURGICA'' @ [10] @ str ''Hallazgos_operatorios: a'' @ [10]
        @ str ''  Nota: b'')
     \<noteq> Inr [(DESCRIPCION_QUIRURGICA,
              [(Hallazgos_operatorios, str ''a'' @ [10] @ str ''  Nota: b'')])]"
  by code_simp

text \<open>
  C5, amended. After any lines that leave a multi-line field \<open>m\<close> open, the section is
  \<open>DESCRIPCION_QUIRURGICA\<close> and \<open>m\<close> has a value \<open>v\<close>; a next line that is not skipped
  (its trimmed text has no page marker), contains a colon and has a key without either
  marker creates no field: the value of \<open>m\<close> becomes \<open>v\<close>, a newline and the whole
  trimmed line, and the field names stay as they were.
\<close>

theorem linea_con_dos_puntos_anexada:
  assumes "procesar_lineas estado_inicial lineas = Inr st"
    "subseccion_actual st = Some m"
    "58 \<in> set (strip cruda)"
    "\<not> str_in Pagina (strip cruda)" "\<not> str_in Impreso_el (strip cruda)"
    "map strip (split1 58 (strip cruda)) = [clave, valor]"
    "\<not> str_in Hallazgos_operatorios clave" "\<not> str_in Detalle_quirurgico clave"
  shows "\<exists>v. seccion_actual st = Some DESCRIPCION_QUIRURGICA
    \<and> getitem (temp_dict st) m = Some v
    \<and> procesar_lineas estado_inicial (lineas @ [cruda])
        = Inr (st\<lparr>temp_dict := setitem m (v @ [10] @ strip cruda) (temp_dict st)\<rparr>)
    \<and> keys (setitem m (v @ [10] @ strip cruda) (temp_dict st)) = keys (temp_dict st)"
proof -
  from alcanzable_ok(1) [OF assms(1)] assms(2)
  have sec: "seccion_actual st = Some DESCRIPCION_QUIRURGICA"
    and m: "m = Hallazgos_operatorios \<or> m = Detalle_quirurgico"
    and en: "m \<in> set (keys (temp_dict st))"
    by (simp_all add: sub_ok_def)
  from en obtain v where v: "getitem (temp_dict st) m = Some v"
    using getitem_None_iff [of "temp_dict st" m] by (cases "getitem (temp_dict st) m") auto
  from m marcadores_literal have m_ne: "m \<noteq> []" by auto
  from marcadores_literal secciones_literal have "DESCRIPCION_QUIRURGICA \<noteq> []" by blast
  with sec have activo: "truthy (seccion_actual st)" by simp
  from assms(3) obtain a b where ab: "split1 58 (strip cruda) = [a, b]"
    using split1_two by blast
  with assms(6) have cv: "strip a = clave" "strip b = valor" by simp_all
  note eq = procesar_linea_campo
    [OF dos_puntos_no_encabezado [OF assms(3)] assms(4,5) activo ab assms(3)]
  from eq sec cv assms(7,8) assms(2) m_ne v
  have "procesar_linea st cruda
      = Inr (st\<lparr>temp_dict := setitem m (v @ [10] @ strip cruda) (temp_dict st)\<rparr>)"
    by (simp add: acumular_def)
  with procesar_lineas_snoc [OF assms(1), of cruda] sec v keys_setitem_present [OF en]
  show ?thesis by simp
qed

theorem linea_con_dos_puntos_anexada_witness:
  "procesar_lineas estado_inicial
     ([str ''DESCRIPCION_QUIRURGICA'', str ''Hallazgos_operatorios: a''] @ [str ''  Nota: b''])
   = Inr \<lparr>datos_json = [], seccion_actual = Some DESCRIPCION_QUIRURGICA,
          subseccion_actual = Some Hallazgos_operatorios,
          temp_dict = [(Hallazgos_operatorios, str ''a'' @ [10] @ str ''Nota: b'')]\<rparr>"
proof -
  let ?st = "\<lparr>datos_json = [], seccion_actual = Some DESCRIPCION_QUIRURGICA,
          subseccion_actual = Some Hallazgos_operatorios,
          temp_dict = [(Hallazgos_operatorios, str ''a'')]\<rparr>"
  have a: "procesar_lineas estado_inicial
      [str ''DESCRIPCION_QUIRURGICA'', str ''Hallazgos_operatorios: a''] = Inr ?st"
    by code_simp
  have b: "subseccion_actual ?st = Some Hallazgos_operatorios" by simp
  have c: "58 \<in> set (strip (str ''  Nota: b''))"
    "\<not> str_in Pagina (strip (str ''  Nota: b''))"
    "\<not> str_in Impreso_el (strip (str ''  Nota: b''))"
    by code_simp+
  have d: "map strip (split1 58 (strip (str ''  Nota: b''))) = [str ''Nota'', str ''b'']"
    by code_simp
  have e: "\<not> str_in Hallazgos_operatorios (str ''Nota'')"
    "\<not> str_in Detalle_quirurgico (str ''Nota'')"
    by code_simp+
  have f: "strip (str ''  Nota: b'') = str ''Nota: b''" by code_simp
  from linea_con_dos_puntos_anexada [OF a b c d e] show ?thesis
    by (auto simp: f)
qed

section \<open>A field assigned twice\<close>











section \<open>A second document over the first\<close>

lemma procesar_linea_datos:
  assumes "strip l \<notin> set secciones"
  shows "procesar_linea (st\<lparr>datos_json := d\<rparr>) l =
    (case procesar_linea st l of Inl e \<Rightarrow> Inl e | Inr s \<Rightarrow> Inr (s\<lparr>datos_json := d\<rparr>))"
proof (cases "strip l = [] \<or> str_in Pagina (strip l) \<or> str_in Impreso_el (strip l)")
  case True
  then show ?thesis by (simp add: procesar_linea_saltar)
next
  case visible: False
  show ?thesis
  proof (cases "truthy (seccion_actual st)")
    case False
    with assms show ?thesis by (simp add: procesar_linea_sin_seccion)
  next
    case activo: True
    then have activo': "truthy (seccion_actual (st\<lparr>datos_json := d\<rparr>))" by simp
    show ?thesis
    proof (cases "58 \<in> set (strip l)")
      case True
      then obtain a b where ab: "split1 58 (strip l) = [a, b]"
        using split1_two by blast
      note e1 = procesar_linea_campo [OF assms _ _ activo ab True]
      note e2 = procesar_linea_campo [OF assms _ _ activo' ab True]
      from visible e1 e2 show ?thesis
        by (simp add: acumular_def split: option.splits)
    next
      case False
      note e1 = procesar_linea_texto [OF assms _ _ activo False]
      note e2 = procesar_linea_texto [OF assms _ _ activo' False]
      from visible e1 e2 show ?thesis
        by (simp add: acumular_def split: option.splits)
    qed
  qed
qed

lemma datos_sin_encabezado:
  assumes "procesar_linea st l = Inr st'" "strip l \<notin> set secciones"
  shows "datos_json st' = datos_json st"
  using assms by (cases rule: procesar_linea_cases) simp_all

lemma getitem_guardar_ultima_mono:
  assumes "seccion_actual a = seccion_actual b" "temp_dict a = temp_dict b"
    "\<forall>s fs. getitem (datos_json a) s = Some fs \<longrightarrow> getitem (datos_json b) s = Some fs"
    "getitem (guardar_ultima a) s = Some fs"
  shows "getitem (guardar_ultima b) s = Some fs"
  using assms by (auto simp: guardar_ultima_def getitem_setitem split: if_splits)

lemma cubre_paso:
  assumes "cubre a b" "procesar_linea a l = Inr a'" "procesar_linea b l = Inr b'"
  shows "cubre a' b'"
proof (cases "strip l \<in> set secciones")
  case True
  from assms(2,3) have a': "a' = \<lparr>datos_json = guardar_ultima a, seccion_actual = Some (strip l),
         subseccion_actual = None, temp_dict = []\<rparr>"
    and b': "b' = \<lparr>datos_json = guardar_ultima b, seccion_actual = Some (strip l),
         subseccion_actual = None, temp_dict = []\<rparr>"
    by (simp_all add: procesar_linea_encabezado [OF True])
  from assms(1) have "\<forall>s fs. getitem (guardar_ultima a) s = Some fs
      \<longrightarrow> getitem (guardar_ultima b) s = Some fs"
    unfolding cubre_def
  proof
    assume "seccion_actual a = None \<and> datos_json a = []"
    then have "guardar_ultima a = []" by (simp add: guardar_ultima_def)
    then show ?thesis by simp
  next
    assume "seccion_actual a = seccion_actual b \<and> subseccion_actual a = subseccion_actual b
      \<and> temp_dict a = temp_dict b
      \<and> (\<forall>s fs. getitem (datos_json a) s = Some fs \<longrightarrow> getitem (datos_json b) s = Some fs)"
    then show ?thesis using getitem_guardar_ultima_mono [of a b] by blast
  qed
  with a' b' show ?thesis by (simp add: cubre_def)
next
  case False
  from assms(1) show ?thesis
    unfolding cubre_def
  proof
    assume ini: "seccion_actual a = None \<and> datos_json a = []"
    then have "procesar_linea a l = Inr a"
      using False by (simp add: procesar_linea_sin_seccion)
    with assms(2) ini show "(seccion_actual a' = None \<and> datos_json a' = [])
      \<or> (seccion_actual a' = seccion_actual b' \<and> subseccion_actual a' = subseccion_actual b'
          \<and> temp_dict a' = temp_dict b'
          \<and> (\<forall>s fs. getitem (datos_json a') s = Some fs
                \<longrightarrow> getitem (datos_json b') s = Some fs))"
      by simp
  next
    assume igual: "seccion_actual a = seccion_actual b
      \<and> subseccion_actual a = subseccion_actual b \<and> temp_dict a = temp_dict b
      \<and> (\<forall>s fs. getitem (datos_json a) s = Some fs \<longrightarrow> getitem (datos_json b) s = Some fs)"
    then have "b = a\<lparr>datos_json := datos_json b\<rparr>" by simp
    then have "procesar_linea b l = procesar_linea (a\<lparr>datos_json := datos_json b\<rparr>) l"
      by simp
    with procesar_linea_datos [OF False, where st = a and d = "datos_json b"] assms(2,3)
    have b': "b' = a'\<lparr>datos_json := datos_json b\<rparr>" by simp
    from datos_sin_encabezado [OF assms(2) False] have "datos_json a' = datos_json a" .
    with b' igual show "(seccion_actual a' = None \<and> datos_json a' = [])
      \<or> (seccion_actual a' = seccion_actual b' \<and> subseccion_actual a' = subseccion_actual b'
          \<and> temp_dict a' = temp_dict b'
          \<and> (\<forall>s fs. getitem (datos_json a') s = Some fs
                \<longrightarrow> getitem (datos_json b') s = Some fs))"
      by simp
  qed
qed

lemma cubre_lineas:
  assumes "cubre a b" "procesar_lineas a ls = Inr a'" "procesar_lineas b ls = Inr b'"
  shows "cubre a' b'"
  using assms
proof (induction ls arbitrary: a b)
  case Nil
  then show ?case by simp
next
  case (Cons l ls)
  from Cons.prems(2) obtain a1 where a1: "procesar_linea a l = Inr a1"
    and ra: "procesar_lineas a1 ls = Inr a'" by (auto split: sum.splits)
  from Cons.prems(3) obtain b1 where b1: "procesar_linea b l = Inr b1"
    and rb: "procesar_lineas b1 ls = Inr b'" by (auto split: sum.splits)
  from cubre_paso [OF Cons.prems(1) a1 b1] have "cubre a1 b1" .
  from Cons.IH [OF this ra rb] show ?case .
qed

lemma cubre_guardar_ultima:
  assumes "cubre a b" "getitem (guardar_ultima a) s = Some fs"
  shows "getitem (guardar_ultima b) s = Some fs"
  using assms(1) unfolding cubre_def
proof
  assume "seccion_actual a = None \<and> datos_json a = []"
  then have "guardar_ultima a = []" by (simp add: guardar_ultima_def)
  with assms(2) show ?thesis by simp
next
  assume "seccion_actual a = seccion_actual b \<and> subseccion_actual a = subseccion_actual b
    \<and> temp_dict a = temp_dict b
    \<and> (\<forall>s fs. getitem (datos_json a) s = Some fs \<longrightarrow> getitem (datos_json b) s = Some fs)"
  with assms(2) show ?thesis using getitem_guardar_ultima_mono [of a b s fs] by blast
qed

lemma procesar_linea_en_blanco: "procesar_linea st [] = Inr st"
  by (simp add: procesar_linea_saltar strip_def)

lemma lineas_guardar_en_txt:
  "split 10 (guardar_en_txt [d1, d2]) = split 10 d1 @ [] # split 10 d2 @ [[], []]"
proof -
  have "guardar_en_txt [d1, d2] = d1 @ 10 # (10 # (d2 @ 10 # [10]))" by simp
  moreover have "split 10 (d1 @ 10 # (10 # (d2 @ 10 # [10])))
      = split 10 d1 @ split 10 (10 # (d2 @ 10 # [10]))"
    by (rule split_append)
  moreover have "split 10 (d2 @ 10 # [10]) = split 10 d2 @ split 10 [10]"
    by (rule split_append)
  ultimately show ?thesis by simp
qed

lemma lineas_join:
  "split 10 (join [10, 10] [d1, d2]) = split 10 d1 @ [] # split 10 d2"
proof -
  have "join [10, 10] [d1, d2] = d1 @ 10 # (10 # d2)" by simp
  then show ?thesis by (simp only: split_append) simp
qed

lemma seccion_del_segundo:
  assumes "convertir_a_json d2 = Inr r2" "getitem r2 s = Some fs"
    "split 10 contenido = split 10 d1 @ [] # split 10 d2 @ cola" "set cola \<subseteq> {[]}"
  shows "\<exists>r. convertir_a_json contenido = Inr r \<and> getitem r s = Some fs"
proof -
  from assms(1) obtain t2 where t2: "procesar_lineas estado_inicial (split 10 d2) = Inr t2"
    and r2: "r2 = guardar_ultima t2"
    by (auto simp: convertir_a_json_def split: sum.splits)
  obtain s1 where s1: "procesar_lineas estado_inicial (split 10 d1) = Inr s1"
    using procesar_lineas_total [OF estado_inicial_ok(1)] by blast
  from alcanzable_ok(1) [OF s1] obtain s2 where s2: "procesar_lineas s1 (split 10 d2) = Inr s2"
    using procesar_lineas_total by blast
  have blancos: "procesar_lineas st cola = Inr st" for st
    using assms(4) by (induction cola) (auto simp: procesar_linea_en_blanco)
  have "procesar_lineas estado_inicial (split 10 d1 @ [] # split 10 d2 @ cola) = Inr s2"
    using s1 s2 blancos by (simp add: procesar_lineas_append procesar_linea_en_blanco)
  with assms(3) have r: "convertir_a_json contenido = Inr (guardar_ultima s2)"
    by (simp add: convertir_a_json_def)
  have "cubre estado_inicial s1" by (simp add: cubre_def estado_inicial_def)
  from cubre_lineas [OF this t2 s2] have "cubre t2 s2" .
  from cubre_guardar_ultima [OF this] assms(2) r2
  have "getitem (guardar_ultima s2) s = Some fs" by simp
  with r show ?thesis by blast
qed

text \<open>
  C3. Let a second document, converted alone, have the section \<open>DATOS_BASICOS\<close> with
  the field \<open>Ingreso\<close> equal to \<open>v2\<close>. Then for every first document, the text that
  \<open>guardar_en_txt\<close> writes for the two (and likewise the two joined by a double newline)
  is converted into a dictionary whose \<open>DATOS_BASICOS\<close> is that of the second document,
  so its \<open>Ingreso\<close> is \<open>v2\<close>, whatever the first document had there.
\<close>

theorem ultimo_documento_gana:
  assumes "convertir_a_json d2 = Inr r2"
    "getitem r2 DATOS_BASICOS = Some campos2"
    "getitem campos2 Ingreso = Some v2"
  shows "(\<exists>r. convertir_a_json (guardar_en_txt [d1, d2]) = Inr r
           \<and> getitem r DATOS_BASICOS = Some campos2)
    \<and> (\<exists>r. convertir_a_json (join [10, 10] [d1, d2]) = Inr r
           \<and> getitem r DATOS_BASICOS = Some campos2)
    \<and> getitem campos2 Ingreso = Some v2"
proof -
  have a: "split 10 (guardar_en_txt [d1, d2]) = split 10 d1 @ [] # split 10 d2 @ [[], []]"
    by (rule lineas_guardar_en_txt)
  have b: "split 10 (join [10, 10] [d1, d2]) = split 10 d1 @ [] # split 10 d2 @ []"
    using lineas_join [of d1 d2] by simp
  from seccion_del_segundo [OF assms(1,2) a] seccion_del_segundo [OF assms(1,2) b] assms(3)
  show ?thesis by simp
qed

theorem ultimo_documento_gana_witness:
  "\<exists>r. convertir_a_json
         (guardar_en_txt [str ''DATOS_BASICOS'' @ [10] @ str ''Ingreso: 1'',
                          str ''DATOS_BASICOS'' @ [10] @ str ''Ingreso: 2'']) = Inr r
     \<and> getitem r DATOS_BASICOS = Some [(Ingreso, str ''2'')]"
proof -
  have a: "convertir_a_json (str ''DATOS_BASICOS'' @ [10] @ str ''Ingreso: 2'')
      = Inr [(DATOS_BASICOS, [(Ingreso, str ''2'')])]"
    by code_simp
  have b: "getitem [(DATOS_BASICOS, [(Ingreso, str ''2'')])] DATOS_BASICOS
      = Some [(Ingreso, str ''2'')]"
    "getitem [(Ingreso, str ''2'')] Ingreso = Some (str ''2'')"
    by simp_all
  from ultimo_documento_gana [OF a b, of "str ''DATOS_BASICOS'' @ [10] @ str ''Ingreso: 1''"]
  show ?thesis by blast
qed

lemma ultimo_documento_gana_directo:
  "convertir_a_json
     (guardar_en_txt [str ''DATOS_BASICOS'' @ [10] @ str ''Ingreso: 1'',
                      str ''DATOS_BASICOS'' @ [10] @ str ''Ingreso: 2''])
   = Inr [(DATOS_BASICOS, [(Ingreso, str ''2'')])]"
  by code_simp

end
